theory Spec2Isabelle
  imports Complex_Main "HOL-Library.Word"
begin

section \<open>The spreadsheet model of \<^verbatim>\<open>model.c\<close>\<close>

text \<open>
  The cell store is a chained hash table of nodes, each node holding one cell. A cell is
  known to the rest of the program by the address of its node: the \<^verbatim>\<open>dependents\<close> array
  of a cell holds such addresses, and the evaluator compares them. The embedding keeps
  that picture: a heap maps addresses to nodes, every bucket of the table is the list of
  the addresses on its chain (head first), and each C function becomes a function from
  the state of the program to its next state.

  Numbers. A \<^verbatim>\<open>double\<close> is a rational number here, so the arithmetic is the exact
  one; rounding, infinities and operands that are themselves not-a-number are outside
  the embedding. \<^verbatim>\<open>NAN\<close>, which the evaluator returns as its "no number" signal, is a
  value of the result type of its own.

  Storage. \<^verbatim>\<open>free\<close> changes no value and is left out: the embedding does not record
  which buffers are live. \<^verbatim>\<open>strdup\<close> is the identity on values.
\<close>

subsection \<open>Structs and definitions\<close>

datatype cell_state = UNVISITED | VISITING

datatype cell_type = NUMBER | TEXT | FORMULA | ERROR

type_synonym addr = nat

text \<open>The union \<^verbatim>\<open>content\<close>: the member written last is the one it holds.\<close>

datatype content = number_value rat | text_value string

record cell =
  row :: int
  col :: int
  content :: content
  computed_value :: rat
  formula :: string
  type :: cell_type
  original_input :: string
  dependents :: "addr list"
  dependents_capacity :: nat
  state :: cell_state

text \<open>
  The field \<open>dependents\<close> is the array prefix \<^verbatim>\<open>dependents[0 .. dependents_count-1]\<close>, so
  \<^verbatim>\<open>dependents_count\<close> is its length. A node's \<^verbatim>\<open>next\<close> pointer is its successor in
  the list of its bucket.
\<close>

record node =
  key :: string
  val :: cell

text \<open>
  The program state: the global table \<^verbatim>\<open>spreadsheet\<close>, the heap of nodes with the next
  address \<^verbatim>\<open>malloc\<close> hands out, the scan position that \<^verbatim>\<open>strtok\<close> keeps between calls
  (the rest of the string it is cutting), and the calls of the external
  \<^verbatim>\<open>update_cell_display\<close> made so far, oldest first.
\<close>

record sheet =
  spreadsheet :: "nat \<Rightarrow> addr list"
  heap :: "addr \<Rightarrow> node"
  brk :: addr
  strtok_save :: string
  display :: "(int \<times> int \<times> string) list"

text \<open>What a run can end in instead of a result.\<close>

datatype fault =
    OutOfFuel
  | NullDereference
  | NotACharacter
  | WrongMember

text \<open>
  The \<^verbatim>\<open>double\<close> that \<^verbatim>\<open>evaluate_formula\<close> returns: a number, or \<^verbatim>\<open>NAN\<close>. The callers'
  test \<^verbatim>\<open>isnan\<close> is the distinction of the two cases.
\<close>

datatype fresult = Value rat | NAN

definition HASH_SIZE :: nat where
  "HASH_SIZE = 1229"

definition cell_at :: "sheet \<Rightarrow> addr \<Rightarrow> cell" where
  "cell_at s p = val (heap s p)"

definition upd_cell :: "addr \<Rightarrow> (cell \<Rightarrow> cell) \<Rightarrow> sheet \<Rightarrow> sheet" where
  "upd_cell p f s = s\<lparr>heap := (heap s)(p := (heap s p)\<lparr>val := f (val (heap s p))\<rparr>)\<rparr>"

definition update_cell_display :: "int \<Rightarrow> int \<Rightarrow> string \<Rightarrow> sheet \<Rightarrow> sheet" where
  "update_cell_display r c t s = s\<lparr>display := display s @ [(r, c, t)]\<rparr>"

subsection \<open>The C library functions the program calls\<close>

definition isalpha :: "char \<Rightarrow> bool" where
  "isalpha c = (let n = (of_char c :: nat) in (65 \<le> n \<and> n \<le> 90) \<or> (97 \<le> n \<and> n \<le> 122))"

definition isdigit_char :: "char \<Rightarrow> bool" where
  "isdigit_char c = (let n = (of_char c :: nat) in 48 \<le> n \<and> n \<le> 57)"

definition isspace :: "char \<Rightarrow> bool" where
  "isspace c = (let n = (of_char c :: nat) in n = 32 \<or> (9 \<le> n \<and> n \<le> 13))"

definition digit_val :: "char \<Rightarrow> nat" where
  "digit_val c = of_char c - 48"

text \<open>The value of a string of decimal digits, most significant first.\<close>

definition digits_val :: "string \<Rightarrow> nat" where
  "digits_val ds = foldl (\<lambda>a c. 10 * a + digit_val c) 0 ds"

text \<open>
  \<^verbatim>\<open>atoi\<close>: white space, an optional sign, then the longest run of digits; 0 when there is
  none. (A value beyond \<^verbatim>\<open>int\<close> is undefined in C; the embedding computes it exactly.)
\<close>

definition atoi :: "string \<Rightarrow> int" where
  "atoi str =
     (let t = dropWhile isspace str;
          neg = (t \<noteq> [] \<and> hd t = CHR ''-'');
          u = (if t \<noteq> [] \<and> (hd t = CHR ''-'' \<or> hd t = CHR ''+'') then tl t else t);
          v = int (digits_val (takeWhile isdigit_char u))
      in if neg then - v else v)"

text \<open>
  \<^verbatim>\<open>strtod\<close> on decimal notation: white space, an optional sign, digits with an optional
  fraction, an optional exponent. The result is the value and the unread rest
  (\<^verbatim>\<open>*end\<close>); when nothing converts, the value is 0 and the rest is the whole string.
  Hexadecimal notation and the spellings of infinity and not-a-number are not covered.
\<close>

definition strtod_exponent :: "string \<Rightarrow> (int \<times> string) option" where
  "strtod_exponent t =
     (if t \<noteq> [] \<and> (hd t = CHR ''e'' \<or> hd t = CHR ''E'') then
        (let u = tl t;
             neg = (u \<noteq> [] \<and> hd u = CHR ''-'');
             w = (if u \<noteq> [] \<and> (hd u = CHR ''-'' \<or> hd u = CHR ''+'') then tl u else u);
             ds = takeWhile isdigit_char w
         in if ds = [] then None
            else Some ((if neg then - int (digits_val ds) else int (digits_val ds)),
                       dropWhile isdigit_char w))
      else None)"

definition strtod :: "string \<Rightarrow> rat \<times> string" where
  "strtod str =
     (let t = dropWhile isspace str;
          neg = (t \<noteq> [] \<and> hd t = CHR ''-'');
          u = (if t \<noteq> [] \<and> (hd t = CHR ''-'' \<or> hd t = CHR ''+'') then tl t else t);
          ip = takeWhile isdigit_char u;
          u1 = dropWhile isdigit_char u;
          dot = (u1 \<noteq> [] \<and> hd u1 = CHR ''.'');
          fp = (if dot then takeWhile isdigit_char (tl u1) else []);
          u2 = (if dot then dropWhile isdigit_char (tl u1) else u1)
      in if ip = [] \<and> fp = [] then (0, str)
         else
           (let m = of_nat (digits_val ip) + of_nat (digits_val fp) / 10 ^ length fp;
                (e, rest) = (case strtod_exponent u2 of None \<Rightarrow> (0, u2) | Some p \<Rightarrow> p);
                v = (if 0 \<le> e then m * 10 ^ nat e else m / 10 ^ nat (- e))
            in ((if neg then - v else v), rest)))"

text \<open>
  \<^verbatim>\<open>strtok\<close> with a one-character delimiter set. \<open>Some str\<close> starts cutting \<open>str\<close>,
  \<open>None\<close> (the call with \<^verbatim>\<open>NULL\<close>) goes on from the saved position, whichever call
  saved it. Delimiters before the token are skipped; the token ends at the next
  delimiter or at the end of the string.
\<close>

definition strtok :: "string option \<Rightarrow> char \<Rightarrow> sheet \<Rightarrow> string option \<times> sheet" where
  "strtok str delim s =
     (let t = dropWhile (\<lambda>c. c = delim) (case str of Some x \<Rightarrow> x | None \<Rightarrow> strtok_save s)
      in if t = [] then (None, s\<lparr>strtok_save := []\<rparr>)
         else (Some (takeWhile (\<lambda>c. c \<noteq> delim) t),
               s\<lparr>strtok_save := drop 1 (dropWhile (\<lambda>c. c \<noteq> delim) t)\<rparr>))"

text \<open>Decimal output of \<^verbatim>\<open>%d\<close>.\<close>

fun show_nat :: "nat \<Rightarrow> string" where
  "show_nat n = (if n < 10 then [''0123456789'' ! n]
                 else show_nat (n div 10) @ [''0123456789'' ! (n mod 10)])"

declare show_nat.simps [simp del]

definition show_int :: "int \<Rightarrow> string" where
  "show_int i = (if i < 0 then CHR ''-'' # show_nat (nat (- i)) else show_nat (nat i))"

text \<open>
  \<^verbatim>\<open>snprintf(buf, 50, "%.1f", x)\<close>: one digit after the point, the nearest such decimal
  and the even one on a tie, at most 49 characters.
\<close>

definition round_tenths :: "rat \<Rightarrow> nat" where
  "round_tenths x =
     (let y = \<bar>x\<bar> * 10; f = \<lfloor>y\<rfloor>; d = y - of_int f
      in nat (if d < 1 / 2 then f else if 1 / 2 < d then f + 1
              else if even f then f else f + 1))"

definition format_1f :: "rat \<Rightarrow> string" where
  "format_1f x =
     (let n = round_tenths x
      in take 49 ((if x < 0 then ''-'' else '''') @ show_nat (n div 10) @ ''.'' @ show_nat (n mod 10)))"

subsection \<open>Helper functions\<close>

text \<open>The hash of a key (djb2 on \<^verbatim>\<open>unsigned long\<close>, 64 bits, reduced to a bucket index).\<close>

definition hash :: "string \<Rightarrow> nat" where
  "hash str = unat (foldl (\<lambda>h c. (push_bit 5 h + h) + of_nat (of_char c)) (5381 :: 64 word) str)
                mod HASH_SIZE"

definition cell_key :: "int \<Rightarrow> int \<Rightarrow> string" where
  "cell_key r c = show_int r @ '','' @ show_int c"

definition set_error_and_update :: "sheet \<Rightarrow> addr \<Rightarrow> string \<Rightarrow> sheet" where
  "set_error_and_update s current error_message =
     (let s1 = upd_cell current (\<lambda>c. c\<lparr>type := ERROR\<rparr>) s;
          s2 = upd_cell current (\<lambda>c. c\<lparr>content := text_value error_message\<rparr>) s1
      in update_cell_display (row (cell_at s2 current)) (col (cell_at s2 current))
           error_message s2)"

subsection \<open>Cell functions\<close>

text \<open>
  \<^verbatim>\<open>create_cell\<close> links a new node at the head of its chain and fills in the position,
  the empty dependents array, the state and the original input. It leaves \<^verbatim>\<open>type\<close>,
  \<^verbatim>\<open>formula\<close> and \<^verbatim>\<open>content\<close> as \<^verbatim>\<open>malloc\<close> delivered them: whatever the heap holds
  at the new address.
\<close>

definition create_cell :: "sheet \<Rightarrow> int \<Rightarrow> int \<Rightarrow> string \<Rightarrow> addr \<times> sheet" where
  "create_cell s r c text =
     (let k = cell_key r c;
          index = hash k;
          new_node = brk s;
          s1 = s\<lparr>brk := Suc (brk s)\<rparr>;
          s2 = s1\<lparr>heap := (heap s1)(new_node := (heap s1 new_node)\<lparr>key := k\<rparr>)\<rparr>;
          s3 = s2\<lparr>spreadsheet := (spreadsheet s2)(index := new_node # spreadsheet s2 index)\<rparr>;
          s4 = upd_cell new_node (\<lambda>x. x\<lparr>row := r, col := c\<rparr>) s3;
          s5 = upd_cell new_node (\<lambda>x. x\<lparr>dependents := [], dependents_capacity := 0\<rparr>) s4;
          s6 = upd_cell new_node (\<lambda>x. x\<lparr>state := UNVISITED, original_input := text\<rparr>) s5
      in (new_node, s6))"

definition add_dependent :: "sheet \<Rightarrow> addr \<Rightarrow> addr \<Rightarrow> sheet" where
  "add_dependent s current dependant =
     (let s1 = (if dependents_capacity (cell_at s current) = 0
                then upd_cell current (\<lambda>x. x\<lparr>dependents_capacity := 1, dependents := []\<rparr>) s
                else if length (dependents (cell_at s current))
                          = dependents_capacity (cell_at s current)
                then upd_cell current
                       (\<lambda>x. x\<lparr>dependents_capacity := 2 * dependents_capacity x\<rparr>) s
                else s)
      in upd_cell current (\<lambda>x. x\<lparr>dependents := dependents x @ [dependant]\<rparr>) s1)"

text \<open>\<^verbatim>\<open>find_cell\<close>: the first node on the chain of the key's bucket that carries the key.\<close>

definition find_cell :: "sheet \<Rightarrow> int \<Rightarrow> int \<Rightarrow> addr option" where
  "find_cell s r c =
     (let k = cell_key r c; index = hash k
      in find (\<lambda>p. key (heap s p) = k) (spreadsheet s index))"

text \<open>
  \<^verbatim>\<open>clear_cell\<close> reads \<^verbatim>\<open>current->type\<close> through the pointer that \<^verbatim>\<open>find_cell\<close> returned,
  whatever it is.
\<close>

definition clear_cell :: "sheet \<Rightarrow> int \<Rightarrow> int \<Rightarrow> fault + sheet" where
  "clear_cell s r c =
     (case find_cell s r c of
        None \<Rightarrow> Inl NullDereference
      | Some current \<Rightarrow>
          (let s1 = (if type (cell_at s current) = FORMULA then s
                     else if type (cell_at s current) = TEXT \<or> type (cell_at s current) = ERROR
                     then s
                     else upd_cell current (\<lambda>x. x\<lparr>content := number_value 0\<rparr>) s)
           in Inr (update_cell_display r c [] s1)))"

text \<open>\<^verbatim>\<open>free_cell\<close> unlinks the node with the key, then clears the cell, then reports.\<close>

definition free_cell :: "sheet \<Rightarrow> int \<Rightarrow> int \<Rightarrow> fault + sheet" where
  "free_cell s r c =
     (let k = cell_key r c; index = hash k
      in case find (\<lambda>p. key (heap s p) = k) (spreadsheet s index) of
           None \<Rightarrow> Inr s
         | Some current \<Rightarrow>
             (let s1 = s\<lparr>spreadsheet :=
                          (spreadsheet s)(index := remove1 current (spreadsheet s index))\<rparr>
              in case clear_cell s1 (row (cell_at s1 current)) (col (cell_at s1 current)) of
                   Inl f \<Rightarrow> Inl f
                 | Inr s2 \<Rightarrow> Inr (update_cell_display r c [] s2)))"

subsection \<open>Evaluating a formula\<close>

text \<open>
  How the token loop ends: by one of its \<^verbatim>\<open>return NAN\<close> statements, or by running out
  of tokens (or \<^verbatim>\<open>break\<close>) with the sum and the string built so far; \<open>None\<close> is the
  \<^verbatim>\<open>NULL\<close> of \<^verbatim>\<open>result_str\<close>.
\<close>

datatype scan = Returned sheet | Scanned sheet rat "string option"

definition first_char :: "string \<Rightarrow> char" where
  "first_char token = (case token of [] \<Rightarrow> CHR 0x00 | c # _ \<Rightarrow> c)"

text \<open>
  The evaluator, its token loop and the sub-formula calls are mutually recursive. The
  first argument bounds the number of calls and loop rounds still allowed; a run that
  needs more ends in \<open>OutOfFuel\<close>. The evaluator cuts \<^verbatim>\<open>current->formula\<close>; its second
  parameter is not used, as in the source.

  The last test of the loop body, \<^verbatim>\<open>isdigit(token)\<close>, hands \<^verbatim>\<open>isdigit\<close> the address of the
  token where the library wants a character code: the call has no defined result
  (\<open>NotACharacter\<close>), so neither of the two branches behind it is ever entered with a
  defined state.
\<close>

fun evaluate_formula :: "nat \<Rightarrow> sheet \<Rightarrow> addr \<Rightarrow> string \<Rightarrow> fault + (sheet \<times> fresult)"
  and token_loop ::
    "nat \<Rightarrow> sheet \<Rightarrow> addr \<Rightarrow> string option \<Rightarrow> rat \<Rightarrow> string option \<Rightarrow> fault + scan"
where
  "evaluate_formula 0 s current fml = Inl OutOfFuel"
| "evaluate_formula (Suc n) s current fml =
     (let s1 = upd_cell current (\<lambda>x. x\<lparr>state := VISITING\<rparr>) s;
          temp_formula = formula (cell_at s1 current);
          (token, s2) = strtok (Some temp_formula) CHR ''+'' s1
      in case token_loop n s2 current token 0 None of
           Inl f \<Rightarrow> Inl f
         | Inr (Returned s3) \<Rightarrow> Inr (s3, NAN)
         | Inr (Scanned s3 result result_str) \<Rightarrow>
             (let s4 = upd_cell current (\<lambda>x. x\<lparr>state := UNVISITED\<rparr>) s3
              in case result_str of
                   Some str \<Rightarrow>
                     if result \<noteq> 0
                     then Inr (set_error_and_update s4 current ''ERROR: incompatible types'', NAN)
                     else Inr (upd_cell current (\<lambda>x. x\<lparr>type := TEXT\<rparr>)
                                 (upd_cell current (\<lambda>x. x\<lparr>content := text_value str\<rparr>) s4), NAN)
                 | None \<Rightarrow> Inr (s4, Value result)))"
| "token_loop 0 s current token result result_str = Inl OutOfFuel"
| "token_loop (Suc n) s current None result result_str = Inr (Scanned s result result_str)"
| "token_loop (Suc n) s current (Some token) result result_str =
     (if isalpha (first_char token) then
        (let c = int (of_char (first_char token)) - 65;
             r = atoi (tl token) - 1
         in case find_cell s r c of
              None \<Rightarrow>
                Inr (Returned (upd_cell current (\<lambda>x. x\<lparr>state := UNVISITED\<rparr>)
                       (set_error_and_update s current ''ERROR: invalid cell reference'')))
            | Some cell \<Rightarrow>
                if state (cell_at s cell) = VISITING then
                  Inr (Returned (upd_cell current (\<lambda>x. x\<lparr>state := UNVISITED\<rparr>)
                         (set_error_and_update s current ''ERROR: circular dependency'')))
                else
                  (case
                     (if type (cell_at s cell) = NUMBER then
                        (case content (cell_at s cell) of
                           number_value v \<Rightarrow> Inr (Scanned s (result + v) result_str)
                         | text_value t \<Rightarrow> Inl WrongMember)
                      else if type (cell_at s cell) = FORMULA then
                        (case evaluate_formula n s cell (formula (cell_at s cell)) of
                           Inl f \<Rightarrow> Inl f
                         | Inr (s1, NAN) \<Rightarrow>
                             Inr (Returned (upd_cell current (\<lambda>x. x\<lparr>state := UNVISITED\<rparr>) s1))
                         | Inr (s1, Value sub_formula_result) \<Rightarrow>
                             Inr (Scanned s1 (result + sub_formula_result) result_str))
                      else if type (cell_at s cell) = TEXT \<or> type (cell_at s cell) = ERROR then
                        (case content (cell_at s cell) of
                           number_value v \<Rightarrow> Inl WrongMember
                         | text_value t \<Rightarrow>
                             (case result_str of
                                None \<Rightarrow> Inr (Scanned s result (Some t))
                              | Some str \<Rightarrow>
                                  if type (cell_at s cell) = ERROR
                                  then Inr (Scanned s result (Some t))
                                  else Inr (Scanned s result (Some (str @ t)))))
                      else Inr (Scanned s result result_str))
                   of
                     Inl f \<Rightarrow> Inl f
                   | Inr (Returned s1) \<Rightarrow> Inr (Returned s1)
                   | Inr (Scanned s1 result1 result_str1) \<Rightarrow>
                       (let dependant_check = (current \<in> set (dependents (cell_at s1 cell)));
                            s2 = (if \<not> dependant_check then add_dependent s1 cell current else s1)
                        in if type (cell_at s2 cell) = ERROR
                           then Inr (Scanned s2 result1 result_str1)
                           else (let (token1, s3) = strtok None CHR ''+'' s2
                                 in token_loop n s3 current token1 result1 result_str1))))
      else Inl NotACharacter)"

subsection \<open>Updating dependant cells\<close>

text \<open>
  The loop of \<^verbatim>\<open>update_dependencies\<close> from index \<open>i\<close> on. It reads the array and its
  count afresh in every round, since re-evaluating a dependant may append to it.
\<close>

fun update_dependencies_from :: "nat \<Rightarrow> nat \<Rightarrow> sheet \<Rightarrow> addr \<Rightarrow> fault + sheet" where
  "update_dependencies_from 0 i s current = Inl OutOfFuel"
| "update_dependencies_from (Suc n) i s current =
     (if i < length (dependents (cell_at s current)) then
        (let dependant = dependents (cell_at s current) ! i
         in if dependant = current then
              update_dependencies_from n (i + 1)
                (set_error_and_update s current ''ERROR: circular dependency'') current
            else
              (case evaluate_formula n s dependant (formula (cell_at s dependant)) of
                 Inl f \<Rightarrow> Inl f
               | Inr (s1, NAN) \<Rightarrow>
                   (let s2 = (if type (cell_at s1 dependant) = ERROR
                              then set_error_and_update s1 dependant ''ERROR: incompatible types''
                              else s1)
                    in case content (cell_at s2 dependant) of
                         number_value v \<Rightarrow> Inl WrongMember
                       | text_value t \<Rightarrow>
                           update_dependencies_from n (i + 1)
                             (update_cell_display (row (cell_at s2 dependant))
                                (col (cell_at s2 dependant)) t s2) current)
               | Inr (s1, Value formula_result) \<Rightarrow>
                   (let s2 = upd_cell dependant (\<lambda>x. x\<lparr>type := NUMBER\<rparr>) s1;
                        s3 = upd_cell dependant
                               (\<lambda>x. x\<lparr>content := number_value formula_result\<rparr>) s2;
                        dependent_value = format_1f formula_result
                    in update_dependencies_from n (i + 1)
                         (update_cell_display (row (cell_at s3 dependant))
                            (col (cell_at s3 dependant)) dependent_value s3) current)))
      else Inr s)"

definition update_dependencies :: "nat \<Rightarrow> sheet \<Rightarrow> addr \<Rightarrow> fault + sheet" where
  "update_dependencies n s current = update_dependencies_from n 0 s current"

subsection \<open>Setting and reading a cell\<close>

text \<open>
  The first part of \<^verbatim>\<open>set_cell_value\<close>: the cell at the coordinate, found or created,
  with the text as its original input.
\<close>

definition enter_cell :: "sheet \<Rightarrow> int \<Rightarrow> int \<Rightarrow> string \<Rightarrow> addr \<times> sheet" where
  "enter_cell s r c text =
     (case find_cell s r c of
        None \<Rightarrow> create_cell s r c text
      | Some current \<Rightarrow> (current, upd_cell current (\<lambda>x. x\<lparr>original_input := text\<rparr>) s))"

definition set_cell_value :: "nat \<Rightarrow> sheet \<Rightarrow> int \<Rightarrow> int \<Rightarrow> string \<Rightarrow> fault + sheet" where
  "set_cell_value n s r c text =
     (let (current, s1) = enter_cell s r c text
      in if first_char text = CHR ''='' then
           (let s2 = upd_cell current (\<lambda>x. x\<lparr>type := FORMULA\<rparr>) s1;
                s3 = upd_cell current (\<lambda>x. x\<lparr>formula := tl text\<rparr>) s2
            in case evaluate_formula n s3 current (formula (cell_at s3 current)) of
                 Inl f \<Rightarrow> Inl f
               | Inr (s4, NAN) \<Rightarrow>
                   if type (cell_at s4 current) = FORMULA then
                     (let s5 = upd_cell current (\<lambda>x. x\<lparr>type := ERROR\<rparr>) s4;
                          s6 = upd_cell current
                                 (\<lambda>x. x\<lparr>content := text_value (original_input x)\<rparr>) s5
                      in Inr (update_cell_display r c (original_input (cell_at s6 current)) s6))
                   else
                     (case content (cell_at s4 current) of
                        number_value v \<Rightarrow> Inl WrongMember
                      | text_value t \<Rightarrow> Inr (update_cell_display r c t s4))
               | Inr (s4, Value formula_result) \<Rightarrow>
                   (let s5 = upd_cell current (\<lambda>x. x\<lparr>computed_value := formula_result\<rparr>) s4;
                        s6 = upd_cell current (\<lambda>x. x\<lparr>type := NUMBER\<rparr>) s5;
                        s7 = upd_cell current
                               (\<lambda>x. x\<lparr>content := number_value (computed_value x)\<rparr>) s6;
                        s8 = update_cell_display r c
                               (format_1f (computed_value (cell_at s7 current))) s7
                    in update_dependencies n s8 current))
         else
           (let (number, end) = strtod text;
                s2 = (if end = []
                      then upd_cell current
                             (\<lambda>x. x\<lparr>type := NUMBER, content := number_value number\<rparr>) s1
                      else upd_cell current
                             (\<lambda>x. x\<lparr>type := TEXT, content := text_value text\<rparr>) s1);
                s3 = update_cell_display r c text s2
            in update_dependencies n s3 current))"

text \<open>
  \<^verbatim>\<open>get_textual_value\<close>: a copy of the original input, or \<^verbatim>\<open>NULL\<close> (after a line on the
  standard output, which is not part of the state).
\<close>

definition get_textual_value :: "sheet \<Rightarrow> int \<Rightarrow> int \<Rightarrow> string option" where
  "get_textual_value s r c =
     (case find_cell s r c of
        Some current \<Rightarrow> Some (original_input (cell_at s current))
      | None \<Rightarrow> None)"

subsection \<open>Model functions\<close>

definition model_init :: "sheet \<Rightarrow> sheet" where
  "model_init s = s\<lparr>spreadsheet := (\<lambda>i. if i < HASH_SIZE then [] else spreadsheet s i)\<rparr>"

subsection \<open>Callers and observations\<close>

text \<open>A client's calls of \<^verbatim>\<open>set_cell_value\<close>, one after the other, stopping at a fault.\<close>

fun set_cell_values :: "nat \<Rightarrow> sheet \<Rightarrow> (int \<times> int \<times> string) list \<Rightarrow> fault + sheet" where
  "set_cell_values n s [] = Inr s"
| "set_cell_values n s ((r, c, text) # rest) =
     (case set_cell_value n s r c text of
        Inl f \<Rightarrow> Inl f
      | Inr s1 \<Rightarrow> set_cell_values n s1 rest)"

text \<open>
  What can be seen of the cell at a coordinate: its kind with its value, its visit state,
  and the text the display was last given for it.
\<close>

definition kind_at :: "sheet \<Rightarrow> int \<Rightarrow> int \<Rightarrow> (cell_type \<times> content) option" where
  "kind_at s r c =
     (case find_cell s r c of
        None \<Rightarrow> None
      | Some p \<Rightarrow> Some (type (cell_at s p), content (cell_at s p)))"

definition state_at :: "sheet \<Rightarrow> int \<Rightarrow> int \<Rightarrow> cell_state option" where
  "state_at s r c =
     (case find_cell s r c of None \<Rightarrow> None | Some p \<Rightarrow> Some (state (cell_at s p)))"

definition shown_at :: "sheet \<Rightarrow> int \<Rightarrow> int \<Rightarrow> string option" where
  "shown_at s r c =
     (let xs = filter (\<lambda>e. fst e = r \<and> fst (snd e) = c) (display s)
      in if xs = [] then None else Some (snd (snd (last xs))))"

fun kind_after :: "fault + sheet \<Rightarrow> int \<Rightarrow> int \<Rightarrow> (cell_type \<times> content) option" where
  "kind_after (Inl f) r c = None"
| "kind_after (Inr s) r c = kind_at s r c"

fun state_after :: "fault + sheet \<Rightarrow> int \<Rightarrow> int \<Rightarrow> cell_state option" where
  "state_after (Inl f) r c = None"
| "state_after (Inr s) r c = state_at s r c"

fun shown_after :: "fault + sheet \<Rightarrow> int \<Rightarrow> int \<Rightarrow> string option" where
  "shown_after (Inl f) r c = None"
| "shown_after (Inr s) r c = shown_at s r c"

text \<open>
  The machine at program start, before \<^verbatim>\<open>model_init\<close>: zeroed static storage, nothing
  allocated, nothing displayed.
\<close>

definition boot :: sheet where
  "boot =
     \<lparr>spreadsheet = (\<lambda>i. []),
      heap = (\<lambda>p. \<lparr>key = [],
                     val = \<lparr>row = 0, col = 0, content = number_value 0, computed_value = 0,
                            formula = [], type = NUMBER, original_input = [],
                            dependents = [], dependents_capacity = 0,
                            state = UNVISITED\<rparr>\<rparr>),
      brk = 0, strtok_save = [], display = []\<rparr>"

subsection \<open>Notions for the proofs\<close>

text \<open>
  The token scan of the evaluator on its own: mark the cell, cut the first token, run
  the loop. \<^verbatim>\<open>evaluate_formula\<close> is this scan followed by the resolution of its outcome.
\<close>

definition scan_formula :: "nat \<Rightarrow> sheet \<Rightarrow> addr \<Rightarrow> fault + scan" where
  "scan_formula n s current =
     (let s1 = upd_cell current (\<lambda>x. x\<lparr>state := VISITING\<rparr>) s;
          temp_formula = formula (cell_at s1 current);
          (token, s2) = strtok (Some temp_formula) CHR ''+'' s1
      in token_loop n s2 current token 0 None)"

fun scan_sheet :: "scan \<Rightarrow> sheet" where
  "scan_sheet (Returned s) = s"
| "scan_sheet (Scanned s result result_str) = s"

fun returned :: "scan \<Rightarrow> bool" where
  "returned (Returned s) = True"
| "returned (Scanned s result result_str) = False"

text \<open>
  What no evaluation and no propagation writes: the table, the allocation mark, the keys
  of the nodes, and of every cell its position, its formula and its original input.
\<close>

definition same_store :: "sheet \<Rightarrow> sheet \<Rightarrow> bool" where
  "same_store s s' \<longleftrightarrow>
     spreadsheet s' = spreadsheet s \<and> brk s' = brk s \<and>
     (\<forall>p. key (heap s' p) = key (heap s p) \<and>
          original_input (cell_at s' p) = original_input (cell_at s p) \<and>
          formula (cell_at s' p) = formula (cell_at s p) \<and>
          row (cell_at s' p) = row (cell_at s p) \<and>
          col (cell_at s' p) = col (cell_at s p))"

text \<open>
  The two ways a call of \<^verbatim>\<open>set_cell_value\<close> writes the cell it has entered: what a text
  that is no formula makes of it, and the state in which the evaluator is called for a
  formula.
\<close>

definition literal_cell :: "string \<Rightarrow> cell \<Rightarrow> cell" where
  "literal_cell text x =
     (if snd (strtod text) = []
      then x\<lparr>type := NUMBER, content := number_value (fst (strtod text))\<rparr>
      else x\<lparr>type := TEXT, content := text_value text\<rparr>)"

definition formula_start :: "sheet \<Rightarrow> addr \<Rightarrow> string \<Rightarrow> sheet" where
  "formula_start s1 current text =
     upd_cell current (\<lambda>x. x\<lparr>formula := tl text\<rparr>)
       (upd_cell current (\<lambda>x. x\<lparr>type := FORMULA\<rparr>) s1)"

text \<open>
  The cells of the table: the addresses on its chains. A sheet is tidy when no cell of
  the table is listed twice among the dependants of a cell, nor listed among its own.
\<close>

definition cells :: "sheet \<Rightarrow> addr set" where
  "cells s = (\<Union>i \<in> {..<HASH_SIZE}. set (spreadsheet s i))"

definition tidy :: "sheet \<Rightarrow> bool" where
  "tidy s \<longleftrightarrow>
     (\<forall>p \<in> cells s. distinct (dependents (cell_at s p)) \<and> p \<notin> set (dependents (cell_at s p)))"

section \<open>Evaluating the library functions and the fuel\<close>

lemma show_nat_small: "n < 10 \<Longrightarrow> show_nat n = [''0123456789'' ! n]"
  by (simp add: show_nat.simps)

lemma show_nat_big:
  "\<not> n < 10 \<Longrightarrow> show_nat n = show_nat (n div 10) @ [''0123456789'' ! (n mod 10)]"
  by (subst show_nat.simps) simp

lemmas lib_defs =
  cell_key_def show_int_def show_nat_small show_nat_big hash_def HASH_SIZE_def
  strtod_def isspace_def isdigit_char_def digits_val_def digit_val_def strtod_exponent_def
  format_1f_def round_tenths_def isalpha_def atoi_def

lemma key_0_0: "cell_key 0 0 = ''0,0''" by (simp add: lib_defs)
lemma key_1_0: "cell_key 1 0 = ''1,0''" by (simp add: lib_defs)
lemma key_2_0: "cell_key 2 0 = ''2,0''" by (simp add: lib_defs)
lemma key_0_1: "cell_key 0 1 = ''0,1''" by (simp add: lib_defs)
lemma key_0_2: "cell_key 0 2 = ''0,2''" by (simp add: lib_defs)
lemma hash_0_0: "hash ''0,0'' = 917" by (simp add: lib_defs)
lemma hash_1_0: "hash ''1,0'' = 777" by (simp add: lib_defs)
lemma hash_2_0: "hash ''2,0'' = 637" by (simp add: lib_defs)
lemma hash_0_1: "hash ''0,1'' = 918" by (simp add: lib_defs)
lemma hash_0_2: "hash ''0,2'' = 919" by (simp add: lib_defs)
lemma strtod_1: "strtod ''1'' = (1, [])" by (simp add: lib_defs Let_def)
lemma strtod_2: "strtod ''2'' = (2, [])" by (simp add: lib_defs Let_def)
lemma strtod_3: "strtod ''3'' = (3, [])" by (simp add: lib_defs Let_def)
lemma strtod_5: "strtod ''5'' = (5, [])" by (simp add: lib_defs Let_def)
lemma strtod_hello: "strtod ''hello'' = (0, ''hello'')" by (simp add: lib_defs Let_def)
lemma atoi_1: "atoi ''1'' = 1" by (simp add: lib_defs Let_def)
lemma atoi_2: "atoi ''2'' = 2" by (simp add: lib_defs Let_def)
lemma isalpha_A: "isalpha CHR ''A''" by (simp add: lib_defs Let_def)
lemma isalpha_B: "isalpha CHR ''B''" by (simp add: lib_defs Let_def)
lemma isalpha_5: "\<not> isalpha CHR ''5''" by (simp add: lib_defs Let_def)
lemma format_1: "format_1f 1 = ''1.0''" by (simp add: lib_defs Let_def)
lemma format_2: "format_1f 2 = ''2.0''" by (simp add: lib_defs Let_def)
lemma format_5: "format_1f 5 = ''5.0''" by (simp add: lib_defs Let_def)
lemma format_10: "format_1f 10 = ''10.0''" by (simp add: lib_defs Let_def)

lemmas lib_facts =
  key_0_0 key_1_0 key_2_0 key_0_1 key_0_2 hash_0_0 hash_1_0 hash_2_0 hash_0_1 hash_0_2
  strtod_1 strtod_2 strtod_3 strtod_5 strtod_hello atoi_1 atoi_2 isalpha_A isalpha_B isalpha_5
  format_1 format_2 format_5 format_10

lemma evaluate_formula_numeral:
  "evaluate_formula (numeral k) = evaluate_formula (Suc (pred_numeral k))"
  by (simp add: numeral_eq_Suc)

lemma token_loop_numeral: "token_loop (numeral k) = token_loop (Suc (pred_numeral k))"
  by (simp add: numeral_eq_Suc)

lemma update_dependencies_from_numeral:
  "update_dependencies_from (numeral k) = update_dependencies_from (Suc (pred_numeral k))"
  by (simp add: numeral_eq_Suc)

lemmas run_defs =
  set_cell_value_def enter_cell_def find_cell_def create_cell_def upd_cell_def cell_at_def
  update_cell_display_def set_error_and_update_def add_dependent_def strtok_def
  update_dependencies_def first_char_def Let_def model_init_def HASH_SIZE_def
  kind_at_def state_at_def shown_at_def scan_formula_def formula_start_def
  evaluate_formula_numeral token_loop_numeral update_dependencies_from_numeral

section \<open>How the operations act on a sheet\<close>

text \<open>
  Each operation of the program, seen through the observations the proofs need: the
  table, the keys, the cells, the scan position and the display.
\<close>

lemma cell_at_upd_cell [simp]:
  "cell_at (upd_cell p f s) q = (if q = p then f (cell_at s p) else cell_at s q)"
  by (simp add: cell_at_def upd_cell_def)
lemma key_upd_cell [simp]: "key (heap (upd_cell p f s) q) = key (heap s q)"
  by (simp add: upd_cell_def)
lemma spreadsheet_upd_cell [simp]: "spreadsheet (upd_cell p f s) = spreadsheet s"
  by (simp add: upd_cell_def)
lemma brk_upd_cell [simp]: "brk (upd_cell p f s) = brk s"
  by (simp add: upd_cell_def)
lemma strtok_save_upd_cell [simp]: "strtok_save (upd_cell p f s) = strtok_save s"
  by (simp add: upd_cell_def)
lemma display_upd_cell [simp]: "display (upd_cell p f s) = display s"
  by (simp add: upd_cell_def)
lemma find_cell_upd_cell [simp]: "find_cell (upd_cell p f s) r c = find_cell s r c"
  by (simp add: find_cell_def)

lemma cell_at_display [simp]: "cell_at (update_cell_display r c t s) q = cell_at s q"
  by (simp add: cell_at_def update_cell_display_def)
lemma heap_display [simp]: "heap (update_cell_display r c t s) = heap s"
  by (simp add: update_cell_display_def)
lemma spreadsheet_display [simp]: "spreadsheet (update_cell_display r c t s) = spreadsheet s"
  by (simp add: update_cell_display_def)
lemma brk_display [simp]: "brk (update_cell_display r c t s) = brk s"
  by (simp add: update_cell_display_def)
lemma strtok_save_display [simp]: "strtok_save (update_cell_display r c t s) = strtok_save s"
  by (simp add: update_cell_display_def)
lemma display_display [simp]: "display (update_cell_display r c t s) = display s @ [(r, c, t)]"
  by (simp add: update_cell_display_def)
lemma find_cell_display [simp]: "find_cell (update_cell_display r' c' t s) r c = find_cell s r c"
  by (simp add: find_cell_def)

lemma cell_at_strtok [simp]: "cell_at (snd (strtok a d s)) q = cell_at s q"
  by (simp add: cell_at_def strtok_def Let_def)
lemma heap_strtok [simp]: "heap (snd (strtok a d s)) = heap s"
  by (simp add: strtok_def Let_def)
lemma spreadsheet_strtok [simp]: "spreadsheet (snd (strtok a d s)) = spreadsheet s"
  by (simp add: strtok_def Let_def)
lemma brk_strtok [simp]: "brk (snd (strtok a d s)) = brk s"
  by (simp add: strtok_def Let_def)
lemma display_strtok [simp]: "display (snd (strtok a d s)) = display s"
  by (simp add: strtok_def Let_def)
lemma find_cell_strtok [simp]: "find_cell (snd (strtok a d s)) r c = find_cell s r c"
  by (simp add: find_cell_def)

lemma cell_at_set_error_other [simp]:
  "q \<noteq> p \<Longrightarrow> cell_at (set_error_and_update s p m) q = cell_at s q"
  by (simp add: set_error_and_update_def Let_def)
lemma type_set_error [simp]:
  "type (cell_at (set_error_and_update s p m) q) = (if q = p then ERROR else type (cell_at s q))"
  by (simp add: set_error_and_update_def Let_def)
lemma content_set_error [simp]:
  "content (cell_at (set_error_and_update s p m) q) =
     (if q = p then text_value m else content (cell_at s q))"
  by (simp add: set_error_and_update_def Let_def)
lemma state_set_error [simp]:
  "state (cell_at (set_error_and_update s p m) q) = state (cell_at s q)"
  by (simp add: set_error_and_update_def Let_def)
lemma dependents_set_error [simp]:
  "dependents (cell_at (set_error_and_update s p m) q) = dependents (cell_at s q)"
  by (simp add: set_error_and_update_def Let_def)
lemma fixed_set_error [simp]:
  "original_input (cell_at (set_error_and_update s p m) q) = original_input (cell_at s q)"
  "formula (cell_at (set_error_and_update s p m) q) = formula (cell_at s q)"
  "row (cell_at (set_error_and_update s p m) q) = row (cell_at s q)"
  "col (cell_at (set_error_and_update s p m) q) = col (cell_at s q)"
  by (simp_all add: set_error_and_update_def Let_def)

lemma cell_at_add_dependent_other [simp]:
  "q \<noteq> p \<Longrightarrow> cell_at (add_dependent s p d) q = cell_at s q"
  by (simp add: add_dependent_def Let_def)
lemma dependents_add_dependent [simp]:
  "dependents (cell_at (add_dependent s p d) q) =
     (if q = p
      then (if dependents_capacity (cell_at s p) = 0 then [] else dependents (cell_at s p)) @ [d]
      else dependents (cell_at s q))"
  by (simp add: add_dependent_def Let_def)
lemma fields_add_dependent [simp]:
  "type (cell_at (add_dependent s p d) q) = type (cell_at s q)"
  "content (cell_at (add_dependent s p d) q) = content (cell_at s q)"
  "state (cell_at (add_dependent s p d) q) = state (cell_at s q)"
  "original_input (cell_at (add_dependent s p d) q) = original_input (cell_at s q)"
  "formula (cell_at (add_dependent s p d) q) = formula (cell_at s q)"
  "row (cell_at (add_dependent s p d) q) = row (cell_at s q)"
  "col (cell_at (add_dependent s p d) q) = col (cell_at s q)"
  by (simp_all add: add_dependent_def Let_def)

lemma spreadsheet_set_error [simp]: "spreadsheet (set_error_and_update s p m) = spreadsheet s"
  by (simp add: set_error_and_update_def Let_def)
lemma brk_set_error [simp]: "brk (set_error_and_update s p m) = brk s"
  by (simp add: set_error_and_update_def Let_def)
lemma key_set_error [simp]: "key (heap (set_error_and_update s p m) q) = key (heap s q)"
  by (simp add: set_error_and_update_def Let_def)
lemma strtok_save_set_error [simp]: "strtok_save (set_error_and_update s p m) = strtok_save s"
  by (simp add: set_error_and_update_def Let_def)
lemma display_set_error [simp]:
  "display (set_error_and_update s p m) = display s @ [(row (cell_at s p), col (cell_at s p), m)]"
  by (simp add: set_error_and_update_def Let_def)
lemma find_cell_set_error [simp]: "find_cell (set_error_and_update s p m) r c = find_cell s r c"
  by (simp add: find_cell_def)
lemma spreadsheet_add_dependent [simp]: "spreadsheet (add_dependent s p d) = spreadsheet s"
  by (simp add: add_dependent_def Let_def)
lemma brk_add_dependent [simp]: "brk (add_dependent s p d) = brk s"
  by (simp add: add_dependent_def Let_def)
lemma key_add_dependent [simp]: "key (heap (add_dependent s p d) q) = key (heap s q)"
  by (simp add: add_dependent_def Let_def)
lemma strtok_save_add_dependent [simp]: "strtok_save (add_dependent s p d) = strtok_save s"
  by (simp add: add_dependent_def Let_def)
lemma display_add_dependent [simp]: "display (add_dependent s p d) = display s"
  by (simp add: add_dependent_def Let_def)
lemma find_cell_add_dependent [simp]: "find_cell (add_dependent s p d) r c = find_cell s r c"
  by (simp add: find_cell_def)

lemma same_store_refl [simp]: "same_store s s"
  by (simp add: same_store_def)
lemma same_store_trans: "same_store s t \<Longrightarrow> same_store t u \<Longrightarrow> same_store s u"
  by (simp add: same_store_def)
lemma same_store_upd_cell:
  "(\<And>x. original_input (f x) = original_input x \<and> formula (f x) = formula x \<and> row (f x) = row x \<and> col (f x) = col x)
   \<Longrightarrow> same_store s t \<Longrightarrow> same_store s (upd_cell p f t)"
  by (simp add: same_store_def)
lemma same_store_display [simp]: "same_store s (update_cell_display r c m t) = same_store s t"
  by (simp add: same_store_def)
lemma same_store_strtok [simp]: "same_store s (snd (strtok a d t)) = same_store s t"
  by (simp add: same_store_def)
lemma same_store_set_error [simp]: "same_store s t \<Longrightarrow> same_store s (set_error_and_update t p m)"
  by (simp add: same_store_def)
lemma same_store_add_dependent [simp]: "same_store s t \<Longrightarrow> same_store s (add_dependent t p d)"
  by (simp add: same_store_def)

section \<open>What an evaluation leaves alone\<close>

text \<open>
  The evaluator and its token loop call each other, so each of the following facts is
  proved for both at once, by induction on the fuel. In turn: an evaluation writes
  nothing of the store; it leaves the visit state of every other cell as it was and the
  evaluated cell unvisited; it keeps a dependents array free of duplicates; it changes
  kind and value of no cell but the evaluated ones; and it never lists a cell among
  its own dependants, because the cell it registers is visiting and the cell it
  registers with is not.
\<close>

lemma same_store_eval:
  "(\<forall>s current fml x. evaluate_formula n s current fml = Inr x \<longrightarrow> same_store s (fst x)) \<and>
   (\<forall>s current token result rs x. token_loop n s current token result rs = Inr x \<longrightarrow> same_store s (scan_sheet x))"
proof (induction n)
  case 0
  show ?case by simp
next
  case (Suc n)
  have ev: "\<And>s current fml x. evaluate_formula n s current fml = Inr x \<Longrightarrow> same_store s (fst x)"
    using Suc by blast
  have tl: "\<And>s current token result rs x. token_loop n s current token result rs = Inr x \<Longrightarrow> same_store s (scan_sheet x)"
    using Suc by blast
  show ?case
  proof (intro conjI allI impI)
    fix s current fml x
    assume e: "evaluate_formula (Suc n) s current fml = Inr x"
    show "same_store s (fst x)"
      using e
      by (auto simp: Let_def case_prod_beta same_store_def split: sum.splits scan.splits option.splits if_splits
          dest!: tl)
  next
    fix s current token result rs x
    assume e: "token_loop (Suc n) s current token result rs = Inr x"
    show "same_store s (scan_sheet x)"
    proof (cases token)
      case None
      then show ?thesis using e by auto
    next
      case (Some tok)
      show ?thesis using e unfolding Some
        by (auto simp: Let_def case_prod_beta same_store_def 
            split: sum.splits scan.splits option.splits if_splits content.splits fresult.splits
          dest!: tl ev)
    qed
  qed
qed


lemma not_VISITING [simp]: "(x \<noteq> VISITING) = (x = UNVISITED)"
  by (cases x) auto

lemma state_eval:
  "(\<forall>s current fml x. evaluate_formula n s current fml = Inr x \<longrightarrow>
      (\<forall>p. p \<noteq> current \<longrightarrow> state (cell_at (fst x) p) = state (cell_at s p)) \<and>
      state (cell_at (fst x) current) = UNVISITED) \<and>
   (\<forall>s current token result rs x. token_loop n s current token result rs = Inr x \<longrightarrow>
      (\<forall>p. p \<noteq> current \<longrightarrow> state (cell_at (scan_sheet x) p) = state (cell_at s p)) \<and>
      state (cell_at (scan_sheet x) current) = (if returned x then UNVISITED else state (cell_at s current)))"
proof (induction n)
  case 0
  show ?case by simp
next
  case (Suc n)
  have ev: "\<And>s current fml x. evaluate_formula n s current fml = Inr x \<Longrightarrow>
      (\<forall>p. p \<noteq> current \<longrightarrow> state (cell_at (fst x) p) = state (cell_at s p)) \<and>
      state (cell_at (fst x) current) = UNVISITED"
    using Suc by blast
  have tl: "\<And>s current token result rs x. token_loop n s current token result rs = Inr x \<Longrightarrow>
      (\<forall>p. p \<noteq> current \<longrightarrow> state (cell_at (scan_sheet x) p) = state (cell_at s p)) \<and>
      state (cell_at (scan_sheet x) current) = (if returned x then UNVISITED else state (cell_at s current))"
    using Suc by blast
  show ?case
  proof (intro conjI allI impI)
    fix s current fml x p
    assume e: "evaluate_formula (Suc n) s current fml = Inr x" and p: "p \<noteq> current"
    show "state (cell_at (fst x) p) = state (cell_at s p)"
      using e p
      by (auto simp: Let_def case_prod_beta split: sum.splits scan.splits option.splits if_splits
          dest!: tl)
  next
    fix s current fml x
    assume e: "evaluate_formula (Suc n) s current fml = Inr x"
    show "state (cell_at (fst x) current) = UNVISITED"
      using e
      by (auto simp: Let_def case_prod_beta split: sum.splits scan.splits option.splits if_splits
          dest!: tl)
  next
    fix s current token result rs x p
    assume e: "token_loop (Suc n) s current token result rs = Inr x" and p: "p \<noteq> current"
    show "state (cell_at (scan_sheet x) p) = state (cell_at s p)"
    proof (cases token)
      case None
      then show ?thesis using e by auto
    next
      case (Some tok)
      show ?thesis using e p unfolding Some
        by (auto simp: Let_def case_prod_beta 
            split: sum.splits scan.splits option.splits if_splits content.splits fresult.splits
          dest!: tl ev) metis+
    qed
  next
    fix s current token result rs x
    assume e: "token_loop (Suc n) s current token result rs = Inr x"
    show "state (cell_at (scan_sheet x) current) = (if returned x then UNVISITED else state (cell_at s current))"
    proof (cases token)
      case None
      then show ?thesis using e by auto
    next
      case (Some tok)
      show ?thesis using e unfolding Some
        by (auto simp: Let_def case_prod_beta 
            split: sum.splits scan.splits option.splits if_splits content.splits fresult.splits
          dest!: tl ev) metis+
    qed
  qed
qed

lemma evaluate_formula_state:
  "evaluate_formula n s current fml = Inr x \<Longrightarrow>
     (\<forall>p. p \<noteq> current \<longrightarrow> state (cell_at (fst x) p) = state (cell_at s p)) \<and>
     state (cell_at (fst x) current) = UNVISITED"
  using state_eval by blast

lemma distinct_eval:
  "(\<forall>s current fml x. evaluate_formula n s current fml = Inr x \<longrightarrow>
      (\<forall>p. distinct (dependents (cell_at s p)) \<longrightarrow> distinct (dependents (cell_at (fst x) p)))) \<and>
   (\<forall>s current token result rs x. token_loop n s current token result rs = Inr x \<longrightarrow>
      (\<forall>p. distinct (dependents (cell_at s p)) \<longrightarrow> distinct (dependents (cell_at (scan_sheet x) p))))"
proof (induction n)
  case 0
  show ?case by simp
next
  case (Suc n)
  have ev: "\<And>s current fml x. evaluate_formula n s current fml = Inr x \<Longrightarrow>
      (\<forall>p. distinct (dependents (cell_at s p)) \<longrightarrow> distinct (dependents (cell_at (fst x) p)))"
    using Suc by blast
  have tl: "\<And>s current token result rs x. token_loop n s current token result rs = Inr x \<Longrightarrow>
      (\<forall>p. distinct (dependents (cell_at s p)) \<longrightarrow> distinct (dependents (cell_at (scan_sheet x) p)))"
    using Suc by blast
  show ?case
  proof (intro conjI allI impI)
    fix s current fml x p
    assume e: "evaluate_formula (Suc n) s current fml = Inr x"
      and p: "distinct (dependents (cell_at s p))"
    show "distinct (dependents (cell_at (fst x) p))"
      using e p
      by (auto simp: Let_def case_prod_beta split: sum.splits scan.splits option.splits if_splits
          dest!: tl)
  next
    fix s current token result rs x p
    assume e: "token_loop (Suc n) s current token result rs = Inr x"
      and p: "distinct (dependents (cell_at s p))"
    show "distinct (dependents (cell_at (scan_sheet x) p))"
    proof (cases token)
      case None
      then show ?thesis using e p by auto
    next
      case (Some tok)
      show ?thesis using e p unfolding Some
        by (auto simp: Let_def case_prod_beta
            split: sum.splits scan.splits option.splits if_splits content.splits fresult.splits
            dest!: tl ev) metis+
    qed
  qed
qed


lemma noself_eval:
  "(\<forall>s current fml x. evaluate_formula n s current fml = Inr x \<longrightarrow>
      (\<forall>p. p \<notin> set (dependents (cell_at s p)) \<longrightarrow> p \<notin> set (dependents (cell_at (fst x) p)))) \<and>
   (\<forall>s current token result rs x. token_loop n s current token result rs = Inr x \<longrightarrow>
      state (cell_at s current) = VISITING \<longrightarrow>
      (\<forall>p. p \<notin> set (dependents (cell_at s p)) \<longrightarrow> p \<notin> set (dependents (cell_at (scan_sheet x) p))))"
proof (induction n)
  case 0
  show ?case by simp
next
  case (Suc n)
  have ev: "\<And>s current fml x. evaluate_formula n s current fml = Inr x \<Longrightarrow>
      (\<forall>p. p \<notin> set (dependents (cell_at s p)) \<longrightarrow> p \<notin> set (dependents (cell_at (fst x) p))) \<and>
      (\<forall>p. p \<noteq> current \<longrightarrow> state (cell_at (fst x) p) = state (cell_at s p))"
    using Suc evaluate_formula_state by blast
  have tl: "\<And>s current token result rs x. token_loop n s current token result rs = Inr x \<Longrightarrow>
      state (cell_at s current) = VISITING \<longrightarrow>
      (\<forall>p. p \<notin> set (dependents (cell_at s p)) \<longrightarrow> p \<notin> set (dependents (cell_at (scan_sheet x) p)))"
    using Suc by blast
  show ?case
  proof (intro conjI allI impI)
    fix s current fml x p
    assume e: "evaluate_formula (Suc n) s current fml = Inr x"
      and p: "p \<notin> set (dependents (cell_at s p))"
    show "p \<notin> set (dependents (cell_at (fst x) p))"
      using e p
      by (auto simp: Let_def case_prod_beta split: sum.splits scan.splits option.splits if_splits
          dest!: tl)
  next
    fix s current token result rs x p
    assume e: "token_loop (Suc n) s current token result rs = Inr x"
      and v: "state (cell_at s current) = VISITING"
      and p: "p \<notin> set (dependents (cell_at s p))"
    show "p \<notin> set (dependents (cell_at (scan_sheet x) p))"
    proof (cases token)
      case None
      then show ?thesis using e p by auto
    next
      case (Some tok)
      show ?thesis using e p v unfolding Some
        by (auto simp: Let_def case_prod_beta
            split: sum.splits scan.splits option.splits if_splits content.splits fresult.splits
            dest!: tl ev) (metis cell_state.distinct(1))+
    qed
  qed
qed

section \<open>What a propagation leaves alone\<close>

lemma evaluate_formula_same_store:
  "evaluate_formula n s current fml = Inr x \<Longrightarrow> same_store s (fst x)"
  using same_store_eval by blast

lemma evaluate_formula_distinct:
  "evaluate_formula n s current fml = Inr x \<Longrightarrow> distinct (dependents (cell_at s p)) \<Longrightarrow>
     distinct (dependents (cell_at (fst x) p))"
  using distinct_eval by blast

lemma evaluate_formula_noself:
  "evaluate_formula n s current fml = Inr x \<Longrightarrow> p \<notin> set (dependents (cell_at s p)) \<Longrightarrow>
     p \<notin> set (dependents (cell_at (fst x) p))"
  using noself_eval by blast


lemma same_store_find_cell: "same_store s s' \<Longrightarrow> find_cell s' r c = find_cell s r c"
  by (simp add: same_store_def find_cell_def)

lemma update_dependencies_from_same_store:
  "update_dependencies_from n i s current = Inr s' \<Longrightarrow> same_store s s'"
proof (induction n arbitrary: i s)
  case 0
  then show ?case by simp
next
  case (Suc n)
  show ?case
    using Suc.prems
    by (auto simp: Let_def same_store_def split: if_splits sum.splits prod.splits fresult.splits content.splits
        dest!: Suc.IH evaluate_formula_same_store)
qed

lemma update_dependencies_from_distinct:
  "update_dependencies_from n i s current = Inr s' \<Longrightarrow> distinct (dependents (cell_at s p)) \<Longrightarrow>
     distinct (dependents (cell_at s' p))"
proof (induction n arbitrary: i s)
  case 0
  then show ?case by simp
next
  case (Suc n)
  have ev: "\<And>s d f x. evaluate_formula n s d f = Inr x \<Longrightarrow>
      distinct (dependents (cell_at s p)) \<longrightarrow> distinct (dependents (cell_at (fst x) p))"
    using evaluate_formula_distinct by blast
  have ih: "\<And>i s. update_dependencies_from n i s current = Inr s' \<Longrightarrow>
      distinct (dependents (cell_at s p)) \<longrightarrow> distinct (dependents (cell_at s' p))"
    using Suc.IH by blast
  show ?case
    using Suc.prems
    by (auto simp: Let_def split: if_splits sum.splits prod.splits fresult.splits content.splits
        dest!: ih ev)
qed

lemma update_dependencies_from_noself:
  "update_dependencies_from n i s current = Inr s' \<Longrightarrow> p \<notin> set (dependents (cell_at s p)) \<Longrightarrow>
     p \<notin> set (dependents (cell_at s' p))"
proof (induction n arbitrary: i s)
  case 0
  then show ?case by simp
next
  case (Suc n)
  have ev: "\<And>s d f x. evaluate_formula n s d f = Inr x \<Longrightarrow>
      p \<notin> set (dependents (cell_at s p)) \<longrightarrow> p \<notin> set (dependents (cell_at (fst x) p))"
    using evaluate_formula_noself by blast
  have ih: "\<And>i s. update_dependencies_from n i s current = Inr s' \<Longrightarrow>
      p \<notin> set (dependents (cell_at s p)) \<longrightarrow> p \<notin> set (dependents (cell_at s' p))"
    using Suc.IH by blast
  show ?case
    using Suc.prems
    by (auto simp: Let_def split: if_splits sum.splits prod.splits fresult.splits content.splits
        dest!: ih ev)
qed


section \<open>Entering a cell and the two paths of \<^verbatim>\<open>set_cell_value\<close>\<close>

lemma hash_less: "hash k < HASH_SIZE"
  by (simp add: hash_def HASH_SIZE_def)

lemma find_cell_model_init [simp]: "find_cell (model_init z) r c = None"
  by (simp add: find_cell_def model_init_def hash_less Let_def)

lemma create_cell_fst [simp]: "fst (create_cell s r c text) = brk s"
  by (simp add: create_cell_def Let_def)

lemma create_cell_spreadsheet:
  "spreadsheet (snd (create_cell s r c text)) =
     (spreadsheet s)(hash (cell_key r c) := brk s # spreadsheet s (hash (cell_key r c)))"
  by (simp add: create_cell_def Let_def)

lemma create_cell_key:
  "key (heap (snd (create_cell s r c text)) q) =
     (if q = brk s then cell_key r c else key (heap s q))"
  by (simp add: create_cell_def Let_def upd_cell_def)

lemma create_cell_other:
  "q \<noteq> brk s \<Longrightarrow> cell_at (snd (create_cell s r c text)) q = cell_at s q"
  by (simp add: create_cell_def Let_def upd_cell_def cell_at_def)

lemma create_cell_new:
  "original_input (cell_at (snd (create_cell s r c text)) (brk s)) = text"
  "dependents (cell_at (snd (create_cell s r c text)) (brk s)) = []"
  "state (cell_at (snd (create_cell s r c text)) (brk s)) = UNVISITED"
  "row (cell_at (snd (create_cell s r c text)) (brk s)) = r"
  "col (cell_at (snd (create_cell s r c text)) (brk s)) = c"
  by (simp_all add: create_cell_def Let_def upd_cell_def cell_at_def)

lemma find_cell_create_cell:
  "find_cell (snd (create_cell s r c text)) r c = Some (brk s)"
  by (simp add: find_cell_def Let_def create_cell_spreadsheet create_cell_key)

lemma enter_cell_found:
  "enter_cell s r c text = (current, s1) \<Longrightarrow>
     find_cell s1 r c = Some current \<and> original_input (cell_at s1 current) = text"
  by (cases "find_cell s r c")
     (auto simp: enter_cell_def find_cell_create_cell create_cell_new prod_eq_iff)

lemma literal_cell_fields [simp]:
  "dependents (literal_cell text x) = dependents x"
  "original_input (literal_cell text x) = original_input x"
  "formula (literal_cell text x) = formula x"
  "row (literal_cell text x) = row x"
  "col (literal_cell text x) = col x"
  "state (literal_cell text x) = state x"
  "type (literal_cell text x) \<noteq> FORMULA"
  by (simp_all add: literal_cell_def)

lemma set_cell_value_literal:
  assumes "first_char text \<noteq> CHR ''=''" and "enter_cell s r c text = (current, s1)"
  shows "set_cell_value n s r c text =
           update_dependencies_from n 0
             (update_cell_display r c text (upd_cell current (literal_cell text) s1)) current"
  using assms unfolding set_cell_value_def update_dependencies_def literal_cell_def
  by (simp add: Let_def case_prod_beta)

lemma formula_start_store [simp]:
  "spreadsheet (formula_start s1 current text) = spreadsheet s1"
  "brk (formula_start s1 current text) = brk s1"
  "key (heap (formula_start s1 current text) p) = key (heap s1 p)"
  "display (formula_start s1 current text) = display s1"
  "strtok_save (formula_start s1 current text) = strtok_save s1"
  "find_cell (formula_start s1 current text) r c = find_cell s1 r c"
  by (simp_all add: formula_start_def)

lemma formula_start_fields [simp]:
  "dependents (cell_at (formula_start s1 current text) p) = dependents (cell_at s1 p)"
  "state (cell_at (formula_start s1 current text) p) = state (cell_at s1 p)"
  "original_input (cell_at (formula_start s1 current text) p) = original_input (cell_at s1 p)"
  "row (cell_at (formula_start s1 current text) p) = row (cell_at s1 p)"
  "col (cell_at (formula_start s1 current text) p) = col (cell_at s1 p)"
  "content (cell_at (formula_start s1 current text) p) = content (cell_at s1 p)"
  "type (cell_at (formula_start s1 current text) p) =
     (if p = current then FORMULA else type (cell_at s1 p))"
  "formula (cell_at (formula_start s1 current text) p) =
     (if p = current then tl text else formula (cell_at s1 p))"
  by (simp_all add: formula_start_def)

lemma set_cell_value_formula:
  assumes "first_char text = CHR ''=''" and "enter_cell s r c text = (current, s1)"
  shows "set_cell_value n s r c text =
           (case evaluate_formula n (formula_start s1 current text) current (tl text) of
              Inl f \<Rightarrow> Inl f
            | Inr (s4, NAN) \<Rightarrow>
                if type (cell_at s4 current) = FORMULA
                then Inr (update_cell_display r c (original_input (cell_at s4 current))
                       (upd_cell current
                          (\<lambda>x. x\<lparr>type := ERROR, content := text_value (original_input x)\<rparr>) s4))
                else (case content (cell_at s4 current) of
                        number_value v \<Rightarrow> Inl WrongMember
                      | text_value t \<Rightarrow> Inr (update_cell_display r c t s4))
            | Inr (s4, Value v) \<Rightarrow>
                update_dependencies_from n 0
                  (update_cell_display r c (format_1f v)
                     (upd_cell current
                        (\<lambda>x. x\<lparr>computed_value := v, type := NUMBER, content := number_value v\<rparr>)
                        s4)) current)"
proof -
  have u: "\<And>f g t. upd_cell current f (upd_cell current g t) = upd_cell current (\<lambda>x. f (g x)) t"
    by (simp add: upd_cell_def)
  show ?thesis
    using assms unfolding set_cell_value_def update_dependencies_def formula_start_def
    by (auto simp: Let_def u split: sum.splits fresult.splits)
qed

lemma found_same_store:
  "find_cell t r c = Some current \<and> original_input (cell_at t current) = text \<Longrightarrow>
   same_store t t' \<Longrightarrow>
   find_cell t' r c = Some current \<and> original_input (cell_at t' current) = text"
  by (simp add: same_store_find_cell) (simp add: same_store_def)

lemma set_cell_value_found:
  assumes "set_cell_value n s r c text = Inr s'" and e: "enter_cell s r c text = (current, s1)"
  shows "find_cell s' r c = Some current \<and> original_input (cell_at s' current) = text"
proof (cases "first_char text = CHR ''=''")
  case False
  note f = enter_cell_found [OF e]
  from assms(1) have u: "update_dependencies_from n 0
             (update_cell_display r c text (upd_cell current (literal_cell text) s1)) current = Inr s'"
    unfolding set_cell_value_literal [OF False e] .
  show ?thesis
    by (rule found_same_store [OF _ update_dependencies_from_same_store [OF u]]) (use f in simp)
next
  case True
  note f = enter_cell_found [OF e]
  have f3: "find_cell (formula_start s1 current text) r c = Some current \<and>
            original_input (cell_at (formula_start s1 current text) current) = text"
    using f by simp
  obtain x where x: "evaluate_formula n (formula_start s1 current text) current (tl text) = Inr x"
    using assms(1) unfolding set_cell_value_formula [OF True e]
    by (auto split: sum.splits)
  have f4: "find_cell (fst x) r c = Some current \<and> original_input (cell_at (fst x) current) = text"
    using found_same_store [OF f3 evaluate_formula_same_store [OF x]] .
  show ?thesis
  proof (cases "snd x")
    case NAN
    then show ?thesis
      using assms(1) x f4 unfolding set_cell_value_formula [OF True e]
      by (cases x) (auto split: if_splits content.splits)
  next
    case (Value v)
    then have u: "update_dependencies_from n 0
                  (update_cell_display r c (format_1f v)
                     (upd_cell current
                        (\<lambda>x. x\<lparr>computed_value := v, type := NUMBER, content := number_value v\<rparr>)
                        (fst x))) current = Inr s'"
      using assms(1) x unfolding set_cell_value_formula [OF True e]
      by (cases x) auto
    show ?thesis
      by (rule found_same_store [OF _ update_dependencies_from_same_store [OF u]]) (use f4 in simp)
  qed
qed

section \<open>Tidy sheets\<close>

lemma find_cell_in_cells: "find_cell s r c = Some p \<Longrightarrow> p \<in> cells s"
  unfolding find_cell_def cells_def Let_def
  by (auto simp: find_Some_iff intro!: bexI [where x = "hash (cell_key r c)"] hash_less)

lemma tidy_model_init: "tidy (model_init z)"
  by (simp add: tidy_def cells_def model_init_def)

lemma same_store_cells: "same_store s s' \<Longrightarrow> cells s' = cells s"
  by (simp add: same_store_def cells_def)

lemma enter_cell_dependents:
  "enter_cell s r c text = (current, s1) \<Longrightarrow>
     dependents (cell_at s1 p) =
       (if find_cell s r c = None \<and> p = current then [] else dependents (cell_at s p))"
  by (cases "find_cell s r c")
     (auto simp: enter_cell_def create_cell_new create_cell_other prod_eq_iff)

lemma enter_cell_cells:
  "enter_cell s r c text = (current, s1) \<Longrightarrow> cells s1 = insert current (cells s)"
proof (cases "find_cell s r c")
  case None
  assume e: "enter_cell s r c text = (current, s1)"
  have c: "current = brk s" and s1: "s1 = snd (create_cell s r c text)"
    using e None by (auto simp: enter_cell_def prod_eq_iff)
  show ?thesis
    unfolding s1 c cells_def create_cell_spreadsheet
    using hash_less [of "cell_key r c"] by (auto split: if_splits)
next
  case (Some p)
  assume e: "enter_cell s r c text = (current, s1)"
  have "current = p" and "s1 = upd_cell p (\<lambda>x. x\<lparr>original_input := text\<rparr>) s"
    using e Some by (auto simp: enter_cell_def)
  then show ?thesis
    using find_cell_in_cells [OF Some] by (auto simp: cells_def)
qed

lemma enter_cell_old:
  "enter_cell s r c text = (current, s1) \<Longrightarrow> find_cell s r c = Some y \<Longrightarrow> current = y"
  by (simp add: enter_cell_def)

lemma enter_cell_tidy: "enter_cell s r c text = (current, s1) \<Longrightarrow> tidy s \<Longrightarrow> tidy s1"
  by (cases "find_cell s r c")
     (auto simp: tidy_def enter_cell_cells enter_cell_dependents
        dest: enter_cell_old find_cell_in_cells)

text \<open>What a whole call of \<^verbatim>\<open>set_cell_value\<close> does to the dependents arrays.\<close>

lemma set_cell_value_dependents:
  assumes run: "set_cell_value n s r c text = Inr s'" and e: "enter_cell s r c text = (current, s1)"
  shows "spreadsheet s' = spreadsheet s1 \<and>
         (distinct (dependents (cell_at s1 p)) \<longrightarrow> distinct (dependents (cell_at s' p))) \<and>
         (p \<notin> set (dependents (cell_at s1 p)) \<longrightarrow> p \<notin> set (dependents (cell_at s' p)))"
proof (cases "first_char text = CHR ''=''")
  case False
  from run have u: "update_dependencies_from n 0
             (update_cell_display r c text (upd_cell current (literal_cell text) s1)) current = Inr s'"
    unfolding set_cell_value_literal [OF False e] .
  have d: "dependents (cell_at (update_cell_display r c text
                                  (upd_cell current (literal_cell text) s1)) p)
             = dependents (cell_at s1 p)"
    by (cases "p = current") simp_all
  show ?thesis
    using update_dependencies_from_same_store [OF u]
      update_dependencies_from_distinct [OF u, of p] update_dependencies_from_noself [OF u, of p]
    unfolding d by (simp add: same_store_def)
next
  case True
  obtain x where x: "evaluate_formula n (formula_start s1 current text) current (tl text) = Inr x"
    using run unfolding set_cell_value_formula [OF True e]
    by (auto split: sum.splits)
  have x1: "spreadsheet (fst x) = spreadsheet s1"
    "distinct (dependents (cell_at s1 p)) \<longrightarrow> distinct (dependents (cell_at (fst x) p))"
    "p \<notin> set (dependents (cell_at s1 p)) \<longrightarrow> p \<notin> set (dependents (cell_at (fst x) p))"
    using evaluate_formula_same_store [OF x] evaluate_formula_distinct [OF x, of p]
      evaluate_formula_noself [OF x, of p]
    by (auto simp: same_store_def)
  show ?thesis
  proof (cases "snd x")
    case NAN
    then show ?thesis
      using run x x1 unfolding set_cell_value_formula [OF True e]
      by (cases x) (auto split: if_splits content.splits)
  next
    case (Value v)
    then have u: "update_dependencies_from n 0
                  (update_cell_display r c (format_1f v)
                     (upd_cell current
                        (\<lambda>x. x\<lparr>computed_value := v, type := NUMBER, content := number_value v\<rparr>)
                        (fst x))) current = Inr s'"
      using run x unfolding set_cell_value_formula [OF True e]
      by (cases x) auto
    have d: "dependents (cell_at (update_cell_display r c (format_1f v)
                     (upd_cell current
                        (\<lambda>x. x\<lparr>computed_value := v, type := NUMBER, content := number_value v\<rparr>)
                        (fst x))) p)
               = dependents (cell_at (fst x) p)"
      by (cases "p = current") simp_all
    show ?thesis
      using update_dependencies_from_same_store [OF u] x1
        update_dependencies_from_distinct [OF u, of p] update_dependencies_from_noself [OF u, of p]
      unfolding d by (simp add: same_store_def)
  qed
qed

lemma set_cell_value_tidy:
  assumes "set_cell_value n s r c text = Inr s'" and "tidy s"
  shows "tidy s'"
proof -
  obtain current s1 where e: "enter_cell s r c text = (current, s1)"
    by (cases "enter_cell s r c text")
  have t1: "tidy s1" using enter_cell_tidy [OF e assms(2)] .
  have "cells s' = cells s1"
    using set_cell_value_dependents [OF assms(1) e] by (simp add: cells_def)
  then show ?thesis
    using t1 set_cell_value_dependents [OF assms(1) e] by (auto simp: tidy_def)
qed

lemma set_cell_values_tidy:
  "set_cell_values n s script = Inr s' \<Longrightarrow> tidy s \<Longrightarrow> tidy s'"
proof (induction script arbitrary: s)
  case Nil
  then show ?case by simp
next
  case (Cons a script)
  obtain r c t where a: "a = (r, c, t)" by (cases a)
  from Cons.prems(1) obtain s1 where 1: "set_cell_value n s r c t = Inr s1"
    and 2: "set_cell_values n s1 script = Inr s'"
    unfolding a by (auto split: sum.splits)
  show ?case using Cons.IH [OF 2 set_cell_value_tidy [OF 1 Cons.prems(2)]] .
qed



section \<open>The claims\<close>

subsection \<open>Propagation reaches the direct dependants only\<close>



subsection \<open>The resolution of a completed scan\<close>




subsection \<open>Two cells that name each other\<close>

text \<open>
  Claim C3, as amended. The claim expects both cells of the pair A1 = A2, A2 = A1 to end
  as errors with the circular-dependency message. When the first call evaluates A1, the
  cell A2 does not exist yet, so A1 becomes an error cell with the invalid-reference
  message; the second call reads that error cell as an operand, takes its message as
  the result string, and A2 becomes a text cell holding the same message. Neither cell
  is left in the visiting state.
\<close>

theorem mutual_reference_outcome:
  "(case set_cell_values 20 (model_init z) [(0, 0, ''=A2''), (1, 0, ''=A1'')] of
      Inl f \<Rightarrow> False
    | Inr s \<Rightarrow>
        kind_at s 0 0 = Some (ERROR, text_value ''ERROR: invalid cell reference'') \<and>
        kind_at s 1 0 = Some (TEXT, text_value ''ERROR: invalid cell reference'') \<and>
        state_at s 0 0 = Some UNVISITED \<and>
        state_at s 1 0 = Some UNVISITED)"
  by (simp add: run_defs lib_facts del: Suc_numeral)

theorem cycle_rejection_counterexample:
  "map_option fst
     (kind_after (set_cell_values 20 (model_init boot) [(0, 0, ''=A2''), (1, 0, ''=A1'')]) 1 0)
     \<noteq> Some ERROR"
  by (simp add: run_defs lib_facts boot_def del: Suc_numeral)

subsection \<open>The visit state after an evaluation\<close>

text \<open>
  Claim C4. Whenever a call of the evaluator on a cell returns, with a number or with
  \<^verbatim>\<open>NAN\<close>, from any state and whatever its second argument, the visit state of that cell
  is unvisited.
\<close>

theorem visit_state_restored:
  "evaluate_formula n s current fml = Inr (s', result) \<Longrightarrow> state (cell_at s' current) = UNVISITED"
  using state_eval [of n] by fastforce

lemma self_formula_run:
  "\<exists>s' r. evaluate_formula 20
             (formula_start (snd (create_cell (model_init boot) 0 0 ''=A1'')) 0 ''=A1'') 0 ''A1''
           = Inr (s', r)"
  by (simp add: run_defs lib_facts boot_def del: Suc_numeral)

text \<open>The witness evaluates a cell whose formula names the cell itself.\<close>

theorem visit_state_restored_witness:
  "\<exists>s' r. evaluate_formula 20
             (formula_start (snd (create_cell (model_init boot) 0 0 ''=A1'')) 0 ''=A1'') 0 ''A1''
           = Inr (s', r) \<and> state (cell_at s' 0) = UNVISITED"
proof -
  obtain s' r where e: "evaluate_formula 20
             (formula_start (snd (create_cell (model_init boot) 0 0 ''=A1'')) 0 ''=A1'') 0 ''A1''
           = Inr (s', r)"
    using self_formula_run by blast
  from visit_state_restored [OF e] e show ?thesis by blast
qed

subsection \<open>The original input\<close>

text \<open>
  Claim C5. After a call of \<^verbatim>\<open>set_cell_value\<close> with a text has returned, whatever the text
  is and whatever became of the cell, \<^verbatim>\<open>get_textual_value\<close> at the same coordinate
  returns that text.
\<close>

theorem round_trip:
  "set_cell_value n s r c text = Inr s' \<Longrightarrow> get_textual_value s' r c = Some text"
  using set_cell_value_found [of n s r c "text" s']
  by (cases "enter_cell s r c text") (auto simp: get_textual_value_def)

lemma self_formula_set:
  "\<exists>s'. set_cell_value 20 (model_init boot) 0 0 ''=A1'' = Inr s'"
  by (simp add: run_defs lib_facts boot_def del: Suc_numeral)

text \<open>The witness is a formula whose evaluation fails.\<close>

theorem round_trip_witness:
  "\<exists>s'. set_cell_value 20 (model_init boot) 0 0 ''=A1'' = Inr s' \<and>
        get_textual_value s' 0 0 = Some ''=A1''"
proof -
  obtain s' where e: "set_cell_value 20 (model_init boot) 0 0 ''=A1'' = Inr s'"
    using self_formula_set by blast
  from round_trip [OF e] e show ?thesis by blast
qed

subsection \<open>A numeric literal as an operand\<close>

text \<open>
  Claim C6. The claim expects the formula 5+7 to evaluate to 12. The first token does not
  start with a letter, so the evaluator reaches \<^verbatim>\<open>isdigit(token)\<close>, which is applied to
  the token's address; the run ends there without a defined result and nothing is added
  to the sum.
\<close>

theorem numeric_literal_operand_fault:
  "set_cell_value 20 (model_init z) 0 0 ''=5+7'' = Inl NotACharacter"
  by (simp add: run_defs lib_facts del: Suc_numeral)

subsection \<open>Dependants are registered once\<close>

text \<open>
  Claim C7. In every state that calls of \<^verbatim>\<open>set_cell_value\<close> lead to from the initial one,
  the dependents array of every cell of the table holds no cell twice.
\<close>

theorem dependents_hold_no_duplicate:
  assumes "set_cell_values n (model_init z) script = Inr s" and "find_cell s r c = Some p"
  shows "distinct (dependents (cell_at s p))"
  using set_cell_values_tidy [OF assms(1) tidy_model_init] find_cell_in_cells [OF assms(2)]
  by (simp add: tidy_def)

lemma double_reference_run:
  "\<exists>s p. set_cell_values 20 (model_init boot) [(0, 0, ''1''), (0, 1, ''=A1+A1'')] = Inr s \<and>
         find_cell s 0 0 = Some p \<and> length (dependents (cell_at s p)) = 1"
  by (simp add: run_defs lib_facts boot_def del: Suc_numeral)

text \<open>
  The witness is the formula A1+A1: it leaves exactly one entry in the dependents array
  of A1.
\<close>

theorem dependents_hold_no_duplicate_witness:
  "\<exists>s p. set_cell_values 20 (model_init boot) [(0, 0, ''1''), (0, 1, ''=A1+A1'')] = Inr s \<and>
         find_cell s 0 0 = Some p \<and> length (dependents (cell_at s p)) = 1 \<and>
         distinct (dependents (cell_at s p))"
proof -
  obtain s p where
    r: "set_cell_values 20 (model_init boot) [(0, 0, ''1''), (0, 1, ''=A1+A1'')] = Inr s"
    and f: "find_cell s 0 0 = Some p" and l: "length (dependents (cell_at s p)) = 1"
    using double_reference_run by blast
  from dependents_hold_no_duplicate [OF r f] r f l show ?thesis by blast
qed

text \<open>A later change of A1 then re-evaluates that dependant once: one report, 10.0.\<close>

lemma double_reference_single_update:
  "(case set_cell_values 20 (model_init z) [(0, 0, ''1''), (0, 1, ''=A1+A1''), (0, 0, ''5'')] of
      Inl f \<Rightarrow> False
    | Inr s \<Rightarrow>
        kind_at s 0 1 = Some (NUMBER, number_value 10) \<and>
        display s = display z @
          [(0, 0, ''1''), (0, 1, ''2.0''), (0, 0, ''5''), (0, 1, ''10.0'')])"
  by (simp add: run_defs lib_facts del: Suc_numeral)

subsection \<open>A failure during propagation\<close>

text \<open>
  Claim C8. The claim expects a dependant whose re-evaluation fails to keep the message
  the evaluator gave it. Here A2 holds A1+A2; when A1 changes, the re-evaluation of A2
  fails on the reference to itself and the evaluator reports the circular dependency,
  but \<^verbatim>\<open>update_dependencies\<close> then replaces the message of every error cell by the
  incompatible-types one and reports that twice.
\<close>

theorem propagation_overwrites_error_message:
  "(case set_cell_values 20 (model_init z) [(0, 0, ''1''), (1, 0, ''=A1+A2''), (0, 0, ''2'')] of
      Inl f \<Rightarrow> False
    | Inr s \<Rightarrow>
        kind_at s 1 0 = Some (ERROR, text_value ''ERROR: incompatible types'') \<and>
        shown_at s 1 0 = Some ''ERROR: incompatible types'' \<and>
        display s = display z @
          [(0, 0, ''1''),
           (1, 0, ''ERROR: circular dependency''), (1, 0, ''ERROR: circular dependency''),
           (0, 0, ''2''),
           (1, 0, ''ERROR: circular dependency''),
           (1, 0, ''ERROR: incompatible types''), (1, 0, ''ERROR: incompatible types'')])"
  by (simp add: run_defs lib_facts del: Suc_numeral)
subsection \<open>A cell among its own dependants\<close>



subsection \<open>Clearing a cell that does not exist\<close>

text \<open>
  Claim C10. \<^verbatim>\<open>clear_cell\<close> dereferences the result of \<^verbatim>\<open>find_cell\<close> unguarded: the call
  faults exactly when there is no cell at the coordinate and returns exactly when there
  is one. In the initial state, where no cell has been set, it faults at every
  coordinate.
\<close>

theorem clear_cell_needs_cell:
  "(clear_cell s r c = Inl NullDereference) = (find_cell s r c = None) \<and>
   (\<exists>s'. clear_cell s r c = Inr s') = (\<exists>current. find_cell s r c = Some current) \<and>
   clear_cell (model_init z) r c = Inl NullDereference"
  by (auto simp: clear_cell_def Let_def split: option.splits)

text \<open>
  \<^verbatim>\<open>free_cell\<close> does not keep to this precondition: it unlinks the node first, so the
  lookup inside \<^verbatim>\<open>clear_cell\<close> no longer finds the cell.
\<close>

lemma free_cell_faults:
  "(case set_cell_value 20 (model_init z) 0 0 ''1'' of
      Inl f \<Rightarrow> False
    | Inr s \<Rightarrow> free_cell s 0 0 = Inl NullDereference \<and> (\<exists>s'. clear_cell s 0 0 = Inr s'))"
  by (simp add: run_defs lib_facts free_cell_def clear_cell_def del: Suc_numeral)

end
